theory Spec2Isabelle
  imports Complex_Main "HOL-Library.Word" "HOL-Library.AList"
begin

unbundle bit_operations_syntax

section \<open>The backup tracker of the workbench (backupTracker.ts)\<close>

text \<open>
  The class \<open>BackupTracker\<close> reacts to events of its collaborators and keeps, for a
  resource, a timer that backs the model of the resource up after a delay. The embedding
  below passes one state record through every handler. The record holds the fields of the
  class, the part of the event loop the class uses (the clock, the live timers, the promises
  that are still being resolved), what the collaborators answer when they are asked, and the
  list of calls the tracker has made to them.
\<close>

subsection \<open>Data\<close>

text \<open>
  A value of the type \<open>URI\<close> is one \<open>URI\<close> object: \<open>oid\<close> is the identity of the
  object, \<open>scheme\<close> and \<open>path\<close> are what it holds. An object never changes what it holds,
  so two values with the same \<open>oid\<close> are one value, and the equality of the type is the
  identity of objects. Two objects name the same resource when they hold the same scheme and
  path.

  The field \<open>pendingBackups\<close> is a \<open>Map<URI, IDisposable>\<close>, which compares its keys by
  the identity of the objects: two \<open>URI\<close> objects of one resource are two keys. The
  \<open>Map\<close> is the list of its entries in the order of insertion: \<open>get\<close> is \<open>map_of\<close>,
  \<open>set\<close> is \<open>AList.update\<close> (the value of a key that is present is replaced, a new key
  is appended) and \<open>delete\<close> is \<open>AList.delete\<close>.
\<close>

record URI =
  oid :: nat
  scheme :: string
  path :: string

definition same_resource :: "URI \<Rightarrow> URI \<Rightarrow> bool" where
  "same_resource a b \<longleftrightarrow> scheme a = scheme b \<and> path a = path b"

text \<open>
  A number of the source language, as far as \<open>typeof\<close> and \<open><\<close> can tell: a finite value
  (every finite double is a real number and \<open><\<close> compares the values exactly), an infinity or
  \<open>NaN\<close>. \<open>number_less\<close> is \<open><\<close> on two numbers.
\<close>

datatype number = NaN | PosInfinity | NegInfinity | Finite real

fun number_less :: "number \<Rightarrow> number \<Rightarrow> bool" where
  "number_less NaN b = False"
| "number_less a NaN = False"
| "number_less (Finite x) (Finite y) = (x < y)"
| "number_less (Finite x) PosInfinity = True"
| "number_less NegInfinity (Finite y) = True"
| "number_less NegInfinity PosInfinity = True"
| "number_less a b = False"

text \<open>What a property of a configuration object can hold at run time.\<close>

datatype jsvalue = Undefined | Number number | String string

definition typeof_number :: "jsvalue \<Rightarrow> bool" where
  "typeof_number v = (case v of Number n \<Rightarrow> True | Undefined \<Rightarrow> False | String x \<Rightarrow> False)"

record IAutoSaveConfiguration =
  autoSaveDelay :: jsvalue

text \<open>
  A working copy as the content change handler sees it: its resource, its capabilities (a bit
  set, combined with \<open>&\<close> on 32 bits) and what its \<open>isDirty()\<close> answers when the handler
  asks.
\<close>

record workingCopy =
  wc_resource :: URI
  capabilities :: "32 word"
  wc_isDirty :: bool

text \<open>
  A model (\<open>ITextFileEditorModel | UntitledTextEditorModel\<close>) is an object with an identity
  and a \<open>URI\<close> object as its resource, which never changes. Whether it is dirty changes
  over time and is kept in the state.
\<close>

record model =
  m_id :: nat
  m_resource :: URI

type_synonym handle = nat

text \<open>
  A live timer of the event loop: the handle \<open>setTimeout\<close> returned, the time from which it
  may fire, and the model its callback has captured.
\<close>

record timer =
  t_handle :: handle
  t_deadline :: nat
  t_model :: model

text \<open>
  The only disposable the tracker stores is \<open>toDisposable(() => clearTimeout(handle))\<close>.
\<close>

datatype IDisposable = ClearTimeout handle

text \<open>The calls the tracker makes to its collaborators.\<close>

datatype call =
  Trace string URI
| DiscardResourceBackup URI
| Backup model
| CreateOrGetResolve URI

text \<open>The seven listeners \<open>registerListeners\<close> passes to \<open>_register\<close>.\<close>

datatype subscription =
  OnDidChangeContent
| OnModelSaved
| OnModelReverted
| OnModelDisposed
| OnDidCreate
| OnDidDisposeModel
| OnAutoSaveConfigurationChange

record state =
  backupsDisabledForAutoSaveables :: bool
  pendingBackups :: "(URI \<times> IDisposable) list"
  store :: "subscription list"
  now :: nat
  nextHandle :: handle
  timers :: "timer list"
  resolving :: "URI list"
  model_isDirty :: "model \<Rightarrow> bool"
  models_get :: "URI \<Rightarrow> model option"
  untitled_isDirty :: "URI \<Rightarrow> bool"
  calls :: "(nat \<times> call) list"

subsection \<open>Constants\<close>

definition DISABLE_BACKUP_AUTO_SAVE_THRESHOLD :: number where
  "DISABLE_BACKUP_AUTO_SAVE_THRESHOLD = Finite 1500"

definition BACKUP_FROM_CONTENT_CHANGE_DELAY :: nat where
  "BACKUP_FROM_CONTENT_CHANGE_DELAY = 1000"

text \<open>
  Modelled from the spec: \<open>Schemas.untitled\<close> of \<open>vs/base/common/network\<close> is not among the
  sources; the spec names the scheme "untitled".
\<close>

definition Schemas_untitled :: string where
  "Schemas_untitled = ''untitled''"

subsection \<open>The event loop and the collaborators\<close>

text \<open>A call to a collaborator is recorded with the time at which it is made.\<close>

definition call :: "call \<Rightarrow> state \<Rightarrow> state" where
  "call c s = s\<lparr>calls := calls s @ [(now s, c)]\<rparr>"

text \<open>
  \<open>setTimeout\<close> starts a timer under a handle no timer had before and returns the handle;
  \<open>clearTimeout\<close> stops the timer of a handle, and does nothing when no such timer is live.
\<close>

definition setTimeout :: "model \<Rightarrow> nat \<Rightarrow> state \<Rightarrow> handle \<times> state" where
  "setTimeout m delay s =
     (nextHandle s,
      s\<lparr>nextHandle := Suc (nextHandle s),
        timers := timers s @ [\<lparr>t_handle = nextHandle s, t_deadline = now s + delay, t_model = m\<rparr>]\<rparr>)"

definition clearTimeout :: "handle \<Rightarrow> state \<Rightarrow> state" where
  "clearTimeout h s = s\<lparr>timers := filter (\<lambda>t. t_handle t \<noteq> h) (timers s)\<rparr>"

text \<open>
  Modelled from the spec: \<open>dispose\<close> and \<open>toDisposable\<close> of \<open>vs/base/common/lifecycle\<close> are
  not among the sources. The spec: "If a pending entry exists [...], cancel it (clear its
  timer)". Disposing an entry runs the \<open>clearTimeout\<close> it wraps; disposing \<open>undefined\<close>
  (no entry) does nothing.
\<close>

fun dispose :: "IDisposable option \<Rightarrow> state \<Rightarrow> state" where
  "dispose None s = s"
| "dispose (Some (ClearTimeout h)) s = clearTimeout h s"

text \<open>
  \<open>createOrGet({ resource }).resolve()\<close> of the untitled service starts a promise; the
  function passed to \<open>then\<close> runs later, when the promise is resolved.
\<close>

definition createOrGet_resolve :: "URI \<Rightarrow> state \<Rightarrow> state" where
  "createOrGet_resolve r s = (call (CreateOrGetResolve r) s)\<lparr>resolving := resolving s @ [r]\<rparr>"

subsection \<open>The methods of the class\<close>

definition registerListeners :: "subscription list" where
  "registerListeners =
     [OnDidChangeContent, OnModelSaved, OnModelReverted, OnModelDisposed,
      OnDidCreate, OnDidDisposeModel, OnAutoSaveConfigurationChange]"

definition onAutoSaveConfigurationChange :: "IAutoSaveConfiguration \<Rightarrow> state \<Rightarrow> state" where
  "onAutoSaveConfigurationChange configuration s =
     s\<lparr>backupsDisabledForAutoSaveables :=
         (typeof_number (autoSaveDelay configuration) \<and>
          (case autoSaveDelay configuration of
             Number d \<Rightarrow> number_less d DISABLE_BACKUP_AUTO_SAVE_THRESHOLD
           | Undefined \<Rightarrow> False
           | String x \<Rightarrow> False))\<rparr>"

text \<open>The callback \<open>backupModel\<close> passes to \<open>setTimeout\<close>.\<close>

definition timerCallback :: "model \<Rightarrow> state \<Rightarrow> state" where
  "timerCallback m s =
     (let s1 = s\<lparr>pendingBackups := AList.delete (m_resource m) (pendingBackups s)\<rparr>
      in if model_isDirty s1 m
         then call (Backup m) (call (Trace ''[backup tracker] running backup'' (m_resource m)) s1)
         else s1)"

definition backupModel :: "model \<Rightarrow> state \<Rightarrow> state" where
  "backupModel m s =
     (let s1 = dispose (map_of (pendingBackups s) (m_resource m)) s;
          s2 = s1\<lparr>pendingBackups := AList.delete (m_resource m) (pendingBackups s1)\<rparr>
      in if model_isDirty s2 m
         then (let s3 = call (Trace ''[backup tracker] starting to backup'' (m_resource m)) s2
               in case setTimeout m BACKUP_FROM_CONTENT_CHANGE_DELAY s3 of
                    (h, s4) \<Rightarrow>
                      s4\<lparr>pendingBackups :=
                           AList.update (m_resource m) (ClearTimeout h) (pendingBackups s4)\<rparr>)
         else s2)"

definition discardBackup :: "URI \<Rightarrow> state \<Rightarrow> state" where
  "discardBackup r s =
     (let s0 = call (Trace ''[backup tracker] discarding backup'' r) s;
          s1 = dispose (map_of (pendingBackups s0) r) s0;
          s2 = s1\<lparr>pendingBackups := AList.delete r (pendingBackups s1)\<rparr>
      in call (DiscardResourceBackup r) s2)"

text \<open>
  \<open>Untitled\<close> is \<open>WorkingCopyCapabilities.Untitled\<close>, a constant whose declaration is not
  among the sources: the handler takes it as a parameter. \<open>!(a & b)\<close> holds when \<open>a & b\<close>
  is zero.
\<close>

definition onDidChangeWorkingCopyContent :: "32 word \<Rightarrow> workingCopy \<Rightarrow> state \<Rightarrow> state" where
  "onDidChangeWorkingCopyContent Untitled workingCopy s =
     (if \<not> wc_isDirty workingCopy then discardBackup (wc_resource workingCopy) s
      else if backupsDisabledForAutoSaveables s \<and> (capabilities workingCopy AND Untitled) = 0
      then s
      else if scheme (wc_resource workingCopy) = Schemas_untitled
      then createOrGet_resolve (wc_resource workingCopy) s
      else (case models_get s (wc_resource workingCopy) of
              Some m \<Rightarrow> backupModel m s
            | None \<Rightarrow> s))"

definition onDidCreateUntitled :: "URI \<Rightarrow> state \<Rightarrow> state" where
  "onDidCreateUntitled r s =
     (if untitled_isDirty s r then createOrGet_resolve r s else s)"

text \<open>
  Modelled from the spec: \<open>dispose()\<close> is inherited from the class \<open>Disposable\<close> of
  \<open>vs/base/common/lifecycle\<close>, which is not among the sources. The spec: "unsubscribe from
  all external event sources". It releases what \<open>_register\<close> received, which in
  \<open>BackupTracker\<close> are the seven listeners and nothing else: the class declares no
  \<open>dispose\<close> of its own, and \<open>pendingBackups\<close> is private to it and never registered.
\<close>

definition Disposable_dispose :: "state \<Rightarrow> state" where
  "Disposable_dispose s = s\<lparr>store := []\<rparr>"

subsection \<open>Events\<close>

text \<open>
  The state after the constructor: nothing pending, backups not disabled, the listeners
  registered. No model exists and nothing is dirty yet.
\<close>

definition init :: state where
  "init =
     \<lparr>backupsDisabledForAutoSaveables = False,
      pendingBackups = [],
      store = registerListeners,
      now = 0,
      nextHandle = 0,
      timers = [],
      resolving = [],
      model_isDirty = (\<lambda>m. False),
      models_get = (\<lambda>r. None),
      untitled_isDirty = (\<lambda>r. False),
      calls = []\<rparr>"

text \<open>
  A timer fires when it is live and its time has come: it leaves the event loop and its
  callback runs. The promise of \<open>createOrGet_resolve\<close> is resolved with a model the untitled
  service chooses, and \<open>backupModel\<close> runs on it; a rejected promise runs nothing.
\<close>

definition timerFires :: "handle \<Rightarrow> state \<Rightarrow> state" where
  "timerFires h s =
     (case find (\<lambda>t. t_handle t = h) (timers s) of
        None \<Rightarrow> s
      | Some t \<Rightarrow>
          if t_deadline t \<le> now s
          then timerCallback (t_model t) (clearTimeout h s)
          else s)"

definition resolved :: "URI \<Rightarrow> model \<Rightarrow> state \<Rightarrow> state" where
  "resolved r m s =
     (if r \<in> set (resolving s)
      then backupModel m (s\<lparr>resolving := remove1 r (resolving s)\<rparr>)
      else s)"

definition rejected :: "URI \<Rightarrow> state \<Rightarrow> state" where
  "rejected r s = s\<lparr>resolving := remove1 r (resolving s)\<rparr>"

text \<open>
  The events are the seven notifications the tracker listens to, its disposal, and what the
  event loop and the collaborators do besides: a timer fires, a promise is resolved or
  rejected, time passes, a model becomes dirty or clean, the text file service gets or loses
  the model of a resource, an untitled document becomes dirty or clean.
\<close>

datatype event =
  ChangeContent workingCopy
| ModelSaved URI
| ModelReverted URI
| ModelDisposed URI
| UntitledCreate URI
| UntitledDisposeModel URI
| AutoSaveConfigurationChange IAutoSaveConfiguration
| Teardown
| TimerFires handle
| Resolved URI model
| Rejected URI
| Tick nat
| SetModelDirty model bool
| SetModel URI "model option"
| SetUntitledDirty URI bool

text \<open>A listener runs only while it is registered.\<close>

definition deliver :: "subscription \<Rightarrow> (state \<Rightarrow> state) \<Rightarrow> state \<Rightarrow> state" where
  "deliver l handler s = (if l \<in> set (store s) then handler s else s)"

fun step :: "32 word \<Rightarrow> event \<Rightarrow> state \<Rightarrow> state" where
  "step U (ChangeContent c) s = deliver OnDidChangeContent (onDidChangeWorkingCopyContent U c) s"
| "step U (ModelSaved r) s = deliver OnModelSaved (discardBackup r) s"
| "step U (ModelReverted r) s = deliver OnModelReverted (discardBackup r) s"
| "step U (ModelDisposed r) s = deliver OnModelDisposed (discardBackup r) s"
| "step U (UntitledCreate r) s = deliver OnDidCreate (onDidCreateUntitled r) s"
| "step U (UntitledDisposeModel r) s = deliver OnDidDisposeModel (discardBackup r) s"
| "step U (AutoSaveConfigurationChange c) s =
     deliver OnAutoSaveConfigurationChange (onAutoSaveConfigurationChange c) s"
| "step U Teardown s = Disposable_dispose s"
| "step U (TimerFires h) s = timerFires h s"
| "step U (Resolved r m) s = resolved r m s"
| "step U (Rejected r) s = rejected r s"
| "step U (Tick d) s = s\<lparr>now := now s + d\<rparr>"
| "step U (SetModelDirty m b) s = s\<lparr>model_isDirty := (model_isDirty s)(m := b)\<rparr>"
| "step U (SetModel r m) s = s\<lparr>models_get := (models_get s)(r := m)\<rparr>"
| "step U (SetUntitledDirty r b) s = s\<lparr>untitled_isDirty := (untitled_isDirty s)(r := b)\<rparr>"

fun run :: "32 word \<Rightarrow> event list \<Rightarrow> state \<Rightarrow> state" where
  "run U [] s = s"
| "run U (e # es) s = run U es (step U e s)"

subsection \<open>Auxiliary notions for the proofs\<close>

text \<open>
  Both \<open>backupModel\<close> and \<open>discardBackup\<close> start with the same two statements, which
  dispose the entry of a resource and delete it from the map.
\<close>

definition cancel :: "URI \<Rightarrow> state \<Rightarrow> state" where
  "cancel r s =
     (dispose (map_of (pendingBackups s) r) s)\<lparr>pendingBackups := AList.delete r (pendingBackups s)\<rparr>"

text \<open>
  The invariant of the tracker: the keys of the map are distinct, the handles of the live
  timers are distinct and were all handed out already, and the entries of the map and the
  live timers correspond one to one: the timer of a model is the one the entry of the
  model's resource clears, and every entry clears a live timer of a model of its resource.
\<close>

definition tracker_inv :: "state \<Rightarrow> bool" where
  "tracker_inv s \<longleftrightarrow>
     distinct (map fst (pendingBackups s)) \<and>
     distinct (map t_handle (timers s)) \<and>
     (\<forall>t \<in> set (timers s). t_handle t < nextHandle s) \<and>
     (\<forall>t \<in> set (timers s).
        map_of (pendingBackups s) (m_resource (t_model t)) = Some (ClearTimeout (t_handle t))) \<and>
     (\<forall>r h. map_of (pendingBackups s) r = Some (ClearTimeout h) \<longrightarrow>
        (\<exists>t \<in> set (timers s). t_handle t = h \<and> m_resource (t_model t) = r))"

text \<open>
  The times at which \<open>backup()\<close> was called on a model of a resource, in the order of the
  calls.
\<close>

fun is_backup_of :: "URI \<Rightarrow> call \<Rightarrow> bool" where
  "is_backup_of r (Backup m) = (m_resource m = r)"
| "is_backup_of r (Trace msg r') = False"
| "is_backup_of r (DiscardResourceBackup r') = False"
| "is_backup_of r (CreateOrGetResolve r') = False"

definition backup_times :: "URI \<Rightarrow> state \<Rightarrow> nat list" where
  "backup_times r s = map fst (filter (\<lambda>c. is_backup_of r (snd c)) (calls s))"

text \<open>
  An event spares a key of the map in a state when, in that state, it runs neither
  \<open>backupModel\<close> on a model with that key nor \<open>discardBackup\<close> for that key. Events of
  other keys spare it, and so do the events that run neither method: time passes, a timer
  fires, a promise is started or rejected, the collaborators change what they answer, the
  configuration changes, the tracker is disposed.
\<close>

fun spares :: "URI \<Rightarrow> 32 word \<Rightarrow> event \<Rightarrow> state \<Rightarrow> bool" where
  "spares r U (ChangeContent c) s =
     (if \<not> wc_isDirty c then wc_resource c \<noteq> r
      else if backupsDisabledForAutoSaveables s \<and> (capabilities c AND U) = 0 then True
      else if scheme (wc_resource c) = Schemas_untitled then True
      else (case models_get s (wc_resource c) of
              Some m \<Rightarrow> m_resource m \<noteq> r
            | None \<Rightarrow> True))"
| "spares r U (ModelSaved r') s = (r' \<noteq> r)"
| "spares r U (ModelReverted r') s = (r' \<noteq> r)"
| "spares r U (ModelDisposed r') s = (r' \<noteq> r)"
| "spares r U (UntitledDisposeModel r') s = (r' \<noteq> r)"
| "spares r U (Resolved r' m) s = (m_resource m \<noteq> r)"
| "spares r U e s = True"

fun run_spares :: "URI \<Rightarrow> 32 word \<Rightarrow> event list \<Rightarrow> state \<Rightarrow> bool" where
  "run_spares r U [] s = True"
| "run_spares r U (e # es) s = (spares r U e s \<and> run_spares r U es (step U e s))"

text \<open>
  While every event spares a key after a backup was scheduled under it to fire from time
  \<open>d\<close> on, either its timer is still the only one of the key and no backup was made for
  the key since, or no timer of the key is left and at most one backup was made since, at
  time \<open>d\<close> or later.
\<close>

definition awaits :: "URI \<Rightarrow> nat \<Rightarrow> nat list \<Rightarrow> state \<Rightarrow> bool" where
  "awaits r d b x \<longleftrightarrow>
     tracker_inv x \<and>
     ((\<exists>t. filter (\<lambda>t. m_resource (t_model t) = r) (timers x) = [t] \<and> t_deadline t = d) \<and>
        backup_times r x = b \<or>
      filter (\<lambda>t. m_resource (t_model t) = r) (timers x) = [] \<and>
        (backup_times r x = b \<or> (\<exists>t\<ge>d. backup_times r x = b @ [t])))"

subsection \<open>Examples\<close>

text \<open>
  Two files with their models and working copies. \<open>openA\<close> makes the model of the first
  file known and dirty and reports a change of its content.
\<close>

definition fileA :: URI where
  "fileA = \<lparr>oid = 1, scheme = ''file'', path = ''/a.txt''\<rparr>"

definition fileB :: URI where
  "fileB = \<lparr>oid = 2, scheme = ''file'', path = ''/b.txt''\<rparr>"

definition modelA :: model where
  "modelA = \<lparr>m_id = 1, m_resource = fileA\<rparr>"

definition modelB :: model where
  "modelB = \<lparr>m_id = 2, m_resource = fileB\<rparr>"

definition copyA :: workingCopy where
  "copyA = \<lparr>wc_resource = fileA, capabilities = 0, wc_isDirty = True\<rparr>"

definition copyB :: workingCopy where
  "copyB = \<lparr>wc_resource = fileB, capabilities = 0, wc_isDirty = True\<rparr>"

definition openA :: "event list" where
  "openA = [SetModel fileA (Some modelA), SetModelDirty modelA True, ChangeContent copyA]"

text \<open>The model of the first file is clean again when its timer is due.\<close>

definition cleanA :: "event list" where
  "cleanA = openA @ [SetModelDirty modelA False, Tick 1000]"

text \<open>Both files have a pending backup, scheduled 300 time units apart.\<close>

definition openAB :: "event list" where
  "openAB = openA @ [Tick 300, SetModel fileB (Some modelB), SetModelDirty modelB True,
     ChangeContent copyB, Tick 300]"

text \<open>
  After a second change of the first file at time 500: the first timer would have been due at
  1000, the second one is due at 1500. Meanwhile the second file changes and is saved.
\<close>

definition afterSecondChange :: "event list" where
  "afterSecondChange =
     [Tick 200, SetModel fileB (Some modelB), SetModelDirty modelB True, ChangeContent copyB,
      Tick 300, TimerFires 0, ModelSaved fileB, Tick 500, TimerFires 1]"

text \<open>
  A second \<open>URI\<close> object of the first file, a second model of that file with this object as
  its resource, and a clean working copy with it. In \<open>twoModelsA\<close> the text file service
  has the second model for the file when its content changes again.
\<close>

definition fileA2 :: URI where
  "fileA2 = \<lparr>oid = 4, scheme = ''file'', path = ''/a.txt''\<rparr>"

definition modelA2 :: model where
  "modelA2 = \<lparr>m_id = 4, m_resource = fileA2\<rparr>"

definition cleanCopyA2 :: workingCopy where
  "cleanCopyA2 = \<lparr>wc_resource = fileA2, capabilities = 0, wc_isDirty = False\<rparr>"

definition twoModelsA :: "event list" where
  "twoModelsA =
     openA @ [SetModel fileA (Some modelA2), SetModelDirty modelA2 True, ChangeContent copyA]"

text \<open>
  A short auto save delay is configured, so backups are disabled for auto-saveables.
  \<open>orphanCopy\<close> is a dirty working copy with the untitled capability (taking 4 for the
  bit of the capability) whose resource has the scheme of a file and no model in the text
  file service. \<open>copyU\<close> is a dirty untitled document.
\<close>

definition suppressed :: state where
  "suppressed = run 4 [AutoSaveConfigurationChange \<lparr>autoSaveDelay = Number (Finite 500)\<rparr>] init"

definition orphanCopy :: workingCopy where
  "orphanCopy = \<lparr>wc_resource = fileB, capabilities = 4, wc_isDirty = True\<rparr>"

definition untitled1 :: URI where
  "untitled1 = \<lparr>oid = 3, scheme = ''untitled'', path = ''Untitled-1''\<rparr>"

definition modelU :: model where
  "modelU = \<lparr>m_id = 3, m_resource = untitled1\<rparr>"

definition copyU :: workingCopy where
  "copyU = \<lparr>wc_resource = untitled1, capabilities = 4, wc_isDirty = True\<rparr>"

text \<open>
  The untitled document changes at time 0 and its model is resolved at once; it changes again
  at time 500 (the event after \<open>untitledFirst\<close>), and this time the model is resolved only
  at time 1000, after the first timer has fired.
\<close>

definition untitledFirst :: "event list" where
  "untitledFirst =
     [SetModelDirty modelU True, ChangeContent copyU, Resolved untitled1 modelU, Tick 500]"

definition untitledLate :: "event list" where
  "untitledLate = [Tick 500, TimerFires 0, Resolved untitled1 modelU, Tick 1000, TimerFires 1]"

definition suppressedU :: state where
  "suppressedU =
     run 4 [AutoSaveConfigurationChange \<lparr>autoSaveDelay = Number (Finite 500)\<rparr>,
            SetModelDirty modelU True] init"

section \<open>Properties\<close>

lemma dispose_fields [simp]:
  "pendingBackups (dispose d s) = pendingBackups s"
  "backupsDisabledForAutoSaveables (dispose d s) = backupsDisabledForAutoSaveables s"
  "store (dispose d s) = store s"
  "now (dispose d s) = now s"
  "nextHandle (dispose d s) = nextHandle s"
  "resolving (dispose d s) = resolving s"
  "model_isDirty (dispose d s) = model_isDirty s"
  "models_get (dispose d s) = models_get s"
  "untitled_isDirty (dispose d s) = untitled_isDirty s"
  "calls (dispose d s) = calls s"
  by (cases d; cases "the d"; simp add: clearTimeout_def)+

subsection \<open>The invariant\<close>

lemma same_handle:
  "distinct (map t_handle ts) \<Longrightarrow> t \<in> set ts \<Longrightarrow> t' \<in> set ts \<Longrightarrow> t_handle t = t_handle t' \<Longrightarrow> t = t'"
  by (meson distinct_map inj_onD)

lemma inv_timer_entry:
  "tracker_inv s \<Longrightarrow> t \<in> set (timers s) \<Longrightarrow>
   map_of (pendingBackups s) (m_resource (t_model t)) = Some (ClearTimeout (t_handle t))"
  unfolding tracker_inv_def by blast

lemma inv_entry_timer:
  "tracker_inv s \<Longrightarrow> map_of (pendingBackups s) r = Some (ClearTimeout h) \<Longrightarrow>
   \<exists>t \<in> set (timers s). t_handle t = h \<and> m_resource (t_model t) = r"
  unfolding tracker_inv_def by blast

lemma inv_distinct_handles: "tracker_inv s \<Longrightarrow> distinct (map t_handle (timers s))"
  unfolding tracker_inv_def by blast

lemma inv_distinct_keys: "tracker_inv s \<Longrightarrow> distinct (map fst (pendingBackups s))"
  unfolding tracker_inv_def by blast

lemma inv_handle_bound: "tracker_inv s \<Longrightarrow> t \<in> set (timers s) \<Longrightarrow> t_handle t < nextHandle s"
  unfolding tracker_inv_def by blast

lemma timers_dispose:
  "timers (dispose d s) = (case d of None \<Rightarrow> timers s | Some (ClearTimeout h) \<Rightarrow> filter (\<lambda>t. t_handle t \<noteq> h) (timers s))"
  by (cases d; cases "the d"; simp add: clearTimeout_def)

lemma cancel_fields [simp]:
  "pendingBackups (cancel r s) = AList.delete r (pendingBackups s)"
  "nextHandle (cancel r s) = nextHandle s"
  "now (cancel r s) = now s"
  "calls (cancel r s) = calls s"
  by (simp_all add: cancel_def)

lemma timers_cancel_subset: "set (timers (cancel r s)) \<subseteq> set (timers s)"
  by (auto simp: cancel_def timers_dispose split: option.splits IDisposable.splits)

lemma cancel_no_timer:
  assumes "tracker_inv s" "t \<in> set (timers (cancel r s))"
  shows "m_resource (t_model t) \<noteq> r"
proof
  assume r: "m_resource (t_model t) = r"
  from assms(2) have t: "t \<in> set (timers s)" using timers_cancel_subset by blast
  with assms(1) r have "map_of (pendingBackups s) r = Some (ClearTimeout (t_handle t))"
    using inv_timer_entry by blast
  with assms(2) show False
    by (simp add: cancel_def clearTimeout_def)
qed

lemma cancel_other_timer:
  assumes "tracker_inv s" "t \<in> set (timers s)" "m_resource (t_model t) \<noteq> r"
  shows "t \<in> set (timers (cancel r s))"
proof (cases "map_of (pendingBackups s) r")
  case None
  then show ?thesis using assms by (simp add: cancel_def)
next
  case (Some d)
  obtain h where d: "d = ClearTimeout h" by (cases d)
  with Some assms(1) obtain t0 where t0: "t0 \<in> set (timers s)" "t_handle t0 = h" "m_resource (t_model t0) = r"
    using inv_entry_timer by blast
  have "t_handle t \<noteq> h"
  proof
    assume "t_handle t = h"
    with t0 assms have "t = t0" using same_handle[of "timers s" t t0] inv_distinct_handles by blast
    with t0 assms(3) show False by simp
  qed
  with Some d assms(2) show ?thesis by (simp add: cancel_def clearTimeout_def)
qed

lemma tracker_inv_cancel:
  assumes "tracker_inv s"
  shows "tracker_inv (cancel r s)"
  unfolding tracker_inv_def
proof (intro conjI ballI allI impI)
  show "distinct (map fst (pendingBackups (cancel r s)))"
    using inv_distinct_keys[OF assms] by (simp add: distinct_delete)
  show "distinct (map t_handle (timers (cancel r s)))"
    using inv_distinct_handles[OF assms]
    by (auto simp: cancel_def timers_dispose distinct_map_filter split: option.splits IDisposable.splits)
next
  fix t assume t: "t \<in> set (timers (cancel r s))"
  then have t': "t \<in> set (timers s)" using timers_cancel_subset by blast
  then show "t_handle t < nextHandle (cancel r s)" using inv_handle_bound[OF assms] by simp
  from cancel_no_timer[OF assms t] inv_timer_entry[OF assms t']
  show "map_of (pendingBackups (cancel r s)) (m_resource (t_model t)) = Some (ClearTimeout (t_handle t))"
    by (simp add: delete_conv')
next
  fix r' h assume e: "map_of (pendingBackups (cancel r s)) r' = Some (ClearTimeout h)"
  then have ne: "r' \<noteq> r" and e': "map_of (pendingBackups s) r' = Some (ClearTimeout h)"
    by (auto simp: delete_conv' split: if_splits)
  with assms obtain t where t: "t \<in> set (timers s)" "t_handle t = h" "m_resource (t_model t) = r'"
    using inv_entry_timer by blast
  with ne cancel_other_timer[OF assms, of t r]
  show "\<exists>t\<in>set (timers (cancel r s)). t_handle t = h \<and> m_resource (t_model t) = r'"
    by auto
qed


lemma tracker_inv_update [simp]:
  "tracker_inv (s\<lparr>calls := c\<rparr>) = tracker_inv s"
  "tracker_inv (s\<lparr>resolving := rs\<rparr>) = tracker_inv s"
  "tracker_inv (s\<lparr>store := ls\<rparr>) = tracker_inv s"
  "tracker_inv (s\<lparr>now := n\<rparr>) = tracker_inv s"
  "tracker_inv (s\<lparr>backupsDisabledForAutoSaveables := b\<rparr>) = tracker_inv s"
  "tracker_inv (s\<lparr>model_isDirty := d\<rparr>) = tracker_inv s"
  "tracker_inv (s\<lparr>models_get := g\<rparr>) = tracker_inv s"
  "tracker_inv (s\<lparr>untitled_isDirty := u\<rparr>) = tracker_inv s"
  by (simp_all add: tracker_inv_def)

lemma dispose_eq:
  "dispose d s =
     s\<lparr>timers := (case d of None \<Rightarrow> timers s
                  | Some (ClearTimeout h) \<Rightarrow> filter (\<lambda>t. t_handle t \<noteq> h) (timers s))\<rparr>"
  by (cases d; cases "the d"; simp add: clearTimeout_def)

lemma backupModel_cancel:
  "backupModel m s =
     (if model_isDirty s m
      then (cancel (m_resource m) s)
             \<lparr>calls := calls s @ [(now s, Trace ''[backup tracker] starting to backup'' (m_resource m))],
              nextHandle := Suc (nextHandle s),
              timers := timers (cancel (m_resource m) s) @
                [\<lparr>t_handle = nextHandle s,
                  t_deadline = now s + BACKUP_FROM_CONTENT_CHANGE_DELAY, t_model = m\<rparr>],
              pendingBackups := AList.update (m_resource m) (ClearTimeout (nextHandle s))
                (AList.delete (m_resource m) (pendingBackups s))\<rparr>
      else cancel (m_resource m) s)"
  by (simp add: backupModel_def cancel_def Let_def call_def setTimeout_def dispose_eq split: option.splits IDisposable.splits)

lemma discardBackup_cancel:
  "discardBackup r s =
     (cancel r s)\<lparr>calls := calls s @
        [(now s, Trace ''[backup tracker] discarding backup'' r), (now s, DiscardResourceBackup r)]\<rparr>"
  by (simp add: discardBackup_def cancel_def Let_def call_def dispose_eq split: option.splits IDisposable.splits)

lemma timerFires_cancel:
  assumes "tracker_inv s" "find (\<lambda>t. t_handle t = h) (timers s) = Some t" "t_deadline t \<le> now s"
  shows "timerFires h s =
     (cancel (m_resource (t_model t)) s)\<lparr>calls := calls s @
        (if model_isDirty s (t_model t)
         then [(now s, Trace ''[backup tracker] running backup'' (m_resource (t_model t))),
               (now s, Backup (t_model t))]
         else [])\<rparr>"
proof -
  from assms(2) have t: "t \<in> set (timers s)" "t_handle t = h"
    by (auto simp: find_Some_iff)
  with assms(1) have "map_of (pendingBackups s) (m_resource (t_model t)) = Some (ClearTimeout h)"
    using inv_timer_entry by blast
  then show ?thesis using assms(2,3)
    by (simp add: timerFires_def timerCallback_def cancel_def Let_def call_def clearTimeout_def)
qed

lemma cancel_entry_None:
  "map_of (pendingBackups (cancel r s)) r = None"
  by (simp add: delete_conv')

lemma tracker_inv_schedule:
  assumes "tracker_inv s" "map_of (pendingBackups s) (m_resource m) = None"
  shows "tracker_inv
     (s\<lparr>calls := c, nextHandle := Suc (nextHandle s),
        timers := timers s @ [\<lparr>t_handle = nextHandle s, t_deadline = d, t_model = m\<rparr>],
        pendingBackups := AList.update (m_resource m) (ClearTimeout (nextHandle s)) (pendingBackups s)\<rparr>)"
  unfolding tracker_inv_def
proof (intro conjI ballI allI impI)
  let ?s = "s\<lparr>calls := c, nextHandle := Suc (nextHandle s),
        timers := timers s @ [\<lparr>t_handle = nextHandle s, t_deadline = d, t_model = m\<rparr>],
        pendingBackups := AList.update (m_resource m) (ClearTimeout (nextHandle s)) (pendingBackups s)\<rparr>"
  have no: "t \<in> set (timers s) \<Longrightarrow> m_resource (t_model t) \<noteq> m_resource m" for t
    using inv_timer_entry[OF assms(1)] assms(2) by fastforce
  show "distinct (map fst (pendingBackups ?s))"
    using inv_distinct_keys[OF assms(1)] by (simp add: distinct_update)
  show "distinct (map t_handle (timers ?s))"
    using inv_distinct_handles[OF assms(1)] inv_handle_bound[OF assms(1)] by fastforce
  {
    fix t assume t: "t \<in> set (timers ?s)"
    show "t_handle t < nextHandle ?s"
      using t inv_handle_bound[OF assms(1)] by (auto simp: less_Suc_eq)
    show "map_of (pendingBackups ?s) (m_resource (t_model t)) = Some (ClearTimeout (t_handle t))"
      using t inv_timer_entry[OF assms(1)] no by (auto simp: update_conv')
  }
  {
    fix r h assume "map_of (pendingBackups ?s) r = Some (ClearTimeout h)"
    then show "\<exists>t\<in>set (timers ?s). t_handle t = h \<and> m_resource (t_model t) = r"
      using inv_entry_timer[OF assms(1), of r h] by (auto simp: update_conv' split: if_splits)
  }
qed

lemma tracker_inv_backupModel: "tracker_inv s \<Longrightarrow> tracker_inv (backupModel m s)"
proof -
  assume inv: "tracker_inv s"
  let ?c = "cancel (m_resource m) s"
  have c: "tracker_inv ?c" using inv by (rule tracker_inv_cancel)
  show ?thesis
  proof (cases "model_isDirty s m")
    case False
    then show ?thesis using c by (simp add: backupModel_cancel)
  next
    case True
    have "tracker_inv (?c\<lparr>calls := calls s @ [(now s, Trace ''[backup tracker] starting to backup'' (m_resource m))],
        nextHandle := Suc (nextHandle ?c),
        timers := timers ?c @ [\<lparr>t_handle = nextHandle ?c,
           t_deadline = now s + BACKUP_FROM_CONTENT_CHANGE_DELAY, t_model = m\<rparr>],
        pendingBackups := AList.update (m_resource m) (ClearTimeout (nextHandle ?c)) (pendingBackups ?c)\<rparr>)"
      using c cancel_entry_None by (rule tracker_inv_schedule)
    then show ?thesis using True by (simp add: backupModel_cancel)
  qed
qed

lemma tracker_inv_discardBackup: "tracker_inv s \<Longrightarrow> tracker_inv (discardBackup r s)"
  using tracker_inv_cancel[of s r]
  by (simp add: discardBackup_cancel)

lemma tracker_inv_timerFires: "tracker_inv s \<Longrightarrow> tracker_inv (timerFires h s)"
proof (cases "find (\<lambda>t. t_handle t = h) (timers s)")
  case None
  assume "tracker_inv s"
  with None show ?thesis by (simp add: timerFires_def)
next
  case (Some t)
  assume inv: "tracker_inv s"
  show ?thesis
  proof (cases "t_deadline t \<le> now s")
    case True
    show ?thesis
      using tracker_inv_cancel[OF inv, of "m_resource (t_model t)"]
      by (simp add: timerFires_cancel[OF inv Some True])
  next
    case False
    with Some inv show ?thesis by (simp add: timerFires_def)
  qed
qed

lemma tracker_inv_step: "tracker_inv s \<Longrightarrow> tracker_inv (step U e s)"
proof (cases e)
  case (ChangeContent c)
  assume "tracker_inv s"
  then show ?thesis using ChangeContent
    by (auto simp: deliver_def onDidChangeWorkingCopyContent_def createOrGet_resolve_def call_def
        tracker_inv_discardBackup tracker_inv_backupModel split: option.splits)
next
  case (Resolved r m)
  assume "tracker_inv s"
  then have "tracker_inv (s\<lparr>resolving := remove1 r (resolving s)\<rparr>)"
    by (simp add:)
  then show ?thesis using Resolved \<open>tracker_inv s\<close>
    by (simp add: resolved_def tracker_inv_backupModel)
qed (auto simp: deliver_def tracker_inv_discardBackup tracker_inv_timerFires onDidCreateUntitled_def
      createOrGet_resolve_def call_def onAutoSaveConfigurationChange_def Disposable_dispose_def
      rejected_def)

lemma tracker_inv_init: "tracker_inv init"
  by (simp add: tracker_inv_def init_def)

lemma tracker_inv_run: "tracker_inv s \<Longrightarrow> tracker_inv (run U es s)"
  by (induction es arbitrary: s) (simp_all add: tracker_inv_step)

lemma at_most_one:
  assumes "distinct xs" "\<And>x y. x \<in> set xs \<Longrightarrow> y \<in> set xs \<Longrightarrow> x = y"
  shows "length xs \<le> 1"
proof (cases xs)
  case Nil
  then show ?thesis by simp
next
  case (Cons x ys)
  have "ys = []"
  proof (cases ys)
    case Nil
    then show ?thesis .
  next
    case (Cons y zs)
    with \<open>xs = x # ys\<close> assms(2)[of x y] have "x = y" by simp
    with Cons \<open>xs = x # ys\<close> assms(1) show ?thesis by simp
  qed
  with Cons show ?thesis by simp
qed

lemma one_timer_per_resource:
  assumes "tracker_inv s"
  shows "length (filter (\<lambda>t. m_resource (t_model t) = r) (timers s)) \<le> 1"
proof (rule at_most_one)
  have "distinct (timers s)" using inv_distinct_handles[OF assms] by (simp add: distinct_map)
  then show "distinct (filter (\<lambda>t. m_resource (t_model t) = r) (timers s))" by simp
next
  fix t t'
  assume "t \<in> set (filter (\<lambda>t. m_resource (t_model t) = r) (timers s))"
    "t' \<in> set (filter (\<lambda>t. m_resource (t_model t) = r) (timers s))"
  then have tt: "t \<in> set (timers s)" "t' \<in> set (timers s)"
    and "m_resource (t_model t) = m_resource (t_model t')"
    by auto
  then have "t_handle t = t_handle t'"
    using inv_timer_entry[OF assms, of t] inv_timer_entry[OF assms, of t'] by simp
  then show "t = t'"
    using same_handle[OF inv_distinct_handles[OF assms] tt] by simp
qed

lemma one_entry_per_key:
  assumes "distinct (map fst al)"
  shows "length (filter (\<lambda>e. fst e = r) al) \<le> 1"
  using assms by (induction al) (auto simp: filter_empty_conv image_iff)

subsection \<open>Cancelling an entry\<close>

lemma timers_cancel:
  "timers (cancel r s) =
     (case map_of (pendingBackups s) r of
        None \<Rightarrow> timers s
      | Some (ClearTimeout h) \<Rightarrow> filter (\<lambda>t. t_handle t \<noteq> h) (timers s))"
  by (simp add: cancel_def timers_dispose)

lemma cancel_more_fields [simp]:
  "backupsDisabledForAutoSaveables (cancel r s) = backupsDisabledForAutoSaveables s"
  "resolving (cancel r s) = resolving s"
  "store (cancel r s) = store s"
  "model_isDirty (cancel r s) = model_isDirty s"
  by (simp_all add: cancel_def)

lemma cancel_timers_same:
  "tracker_inv s \<Longrightarrow> filter (\<lambda>t. m_resource (t_model t) = r) (timers (cancel r s)) = []"
  using cancel_no_timer[of s _ r] by (auto simp: filter_empty_conv)

lemma cancel_timers_other:
  assumes "tracker_inv s" "r' \<noteq> r"
  shows "filter (\<lambda>t. m_resource (t_model t) = r') (timers (cancel r s)) =
         filter (\<lambda>t. m_resource (t_model t) = r') (timers s)"
proof (cases "map_of (pendingBackups s) r")
  case None
  then show ?thesis by (simp add: timers_cancel)
next
  case (Some d)
  obtain h where d: "d = ClearTimeout h" by (cases d)
  have "t_handle t \<noteq> h" if "t \<in> set (timers s)" "m_resource (t_model t) = r'" for t
  proof -
    from that assms have "t \<in> set (timers (cancel r s))" by (simp add: cancel_other_timer)
    then show ?thesis using Some d by (simp add: timers_cancel)
  qed
  then have "filter (\<lambda>t. t_handle t \<noteq> h \<and> m_resource (t_model t) = r') (timers s) =
             filter (\<lambda>t. m_resource (t_model t) = r') (timers s)"
    by (intro filter_cong) auto
  then show ?thesis using Some d by (simp add: timers_cancel)
qed


lemma update_fresh: "k \<notin> fst ` set al \<Longrightarrow> AList.update k v al = al @ [(k, v)]"
  by (induction al) auto

lemma entries_after_schedule:
  "filter (\<lambda>e. fst e = r) (AList.update r v (AList.delete r al)) = [(r, v)]"
proof -
  have "filter (\<lambda>e. fst e = r) (AList.delete r al) = []"
    using delete_notin_dom[of r al] by (auto simp: filter_empty_conv)
  then show ?thesis by (simp add: update_fresh delete_notin_dom)
qed

lemma entries_after_cancel:
  "filter (\<lambda>e. fst e = r) (AList.delete r al) = []"
  using delete_notin_dom[of r al] by (auto simp: filter_empty_conv)

subsection \<open>Idle periods\<close>

lemma awaits_timerFires:
  assumes "awaits r d b x"
  shows "awaits r d b (timerFires h x)"
proof (cases "find (\<lambda>t. t_handle t = h) (timers x)")
  case None
  with assms show ?thesis by (simp add: timerFires_def)
next
  case (Some t')
  from assms have inv: "tracker_inv x" by (simp add: awaits_def)
  show ?thesis
  proof (cases "t_deadline t' \<le> now x")
    case False
    with Some assms show ?thesis by (simp add: timerFires_def)
  next
    case True
    note fires = timerFires_cancel [OF inv Some True]
    have inv': "tracker_inv (timerFires h x)" using inv by (rule tracker_inv_timerFires)
    from Some have t': "t' \<in> set (timers x)" by (auto simp: find_Some_iff)
    show ?thesis
    proof (cases "m_resource (t_model t') = r")
      case False
      then have "filter (\<lambda>t. m_resource (t_model t) = r) (timers (timerFires h x)) =
                 filter (\<lambda>t. m_resource (t_model t) = r) (timers x)"
        using cancel_timers_other [OF inv, of r "m_resource (t_model t')"] by (simp add: fires)
      moreover have "backup_times r (timerFires h x) = backup_times r x"
        using False by (simp add: fires backup_times_def)
      ultimately show ?thesis using assms inv' by (simp add: awaits_def)
    next
      case same: True
      have gone: "filter (\<lambda>t. m_resource (t_model t) = r) (timers (timerFires h x)) = []"
        using cancel_timers_same [OF inv, of r] same by (simp add: fires)
      from t' same have mem: "t' \<in> set (filter (\<lambda>t. m_resource (t_model t) = r) (timers x))"
        by simp
      from assms consider
        (pending) t where "filter (\<lambda>t. m_resource (t_model t) = r) (timers x) = [t]"
          "t_deadline t = d" "backup_times r x = b"
        | (none) "filter (\<lambda>t. m_resource (t_model t) = r) (timers x) = []"
        by (auto simp: awaits_def)
      then have "d \<le> now x \<and> backup_times r x = b"
      proof cases
        case pending
        with mem have "t' = t" by simp
        with pending True show ?thesis by simp
      next
        case none
        with mem show ?thesis by simp
      qed
      then have due: "d \<le> now x" and b: "backup_times r x = b" by simp_all
      have "backup_times r (timerFires h x) =
            b @ (if model_isDirty x (t_model t') then [now x] else [])"
        using same b by (simp add: fires backup_times_def)
      with gone due inv' show ?thesis by (auto simp: awaits_def)
    qed
  qed
qed

lemma awaits_update [simp]:
  "awaits r d b (x\<lparr>resolving := rs\<rparr>) = awaits r d b x"
  "awaits r d b (x\<lparr>store := ls\<rparr>) = awaits r d b x"
  "awaits r d b (x\<lparr>now := n\<rparr>) = awaits r d b x"
  "awaits r d b (x\<lparr>backupsDisabledForAutoSaveables := f\<rparr>) = awaits r d b x"
  "awaits r d b (x\<lparr>model_isDirty := md\<rparr>) = awaits r d b x"
  "awaits r d b (x\<lparr>models_get := g\<rparr>) = awaits r d b x"
  "awaits r d b (x\<lparr>untitled_isDirty := u\<rparr>) = awaits r d b x"
  by (simp_all add: awaits_def backup_times_def)

lemma awaits_createOrGet_resolve:
  "awaits r d b (createOrGet_resolve r' x) = awaits r d b x"
  by (simp add: createOrGet_resolve_def call_def awaits_def backup_times_def)

lemma awaits_backupModel:
  assumes "awaits r d b x" "m_resource m \<noteq> r"
  shows "awaits r d b (backupModel m x)"
proof -
  from assms(1) have inv: "tracker_inv x" by (simp add: awaits_def)
  have "filter (\<lambda>t. m_resource (t_model t) = r) (timers (backupModel m x)) =
        filter (\<lambda>t. m_resource (t_model t) = r) (timers x)"
    using cancel_timers_other [OF inv, of r "m_resource m"] assms(2)
    by (simp add: backupModel_cancel)
  moreover have "backup_times r (backupModel m x) = backup_times r x"
    by (simp add: backupModel_cancel backup_times_def)
  ultimately show ?thesis
    using assms(1) tracker_inv_backupModel [OF inv, of m] by (simp add: awaits_def)
qed

lemma awaits_discardBackup:
  assumes "awaits r d b x" "r' \<noteq> r"
  shows "awaits r d b (discardBackup r' x)"
proof -
  from assms(1) have inv: "tracker_inv x" by (simp add: awaits_def)
  have "filter (\<lambda>t. m_resource (t_model t) = r) (timers (discardBackup r' x)) =
        filter (\<lambda>t. m_resource (t_model t) = r) (timers x)"
    using cancel_timers_other [OF inv, of r r'] assms(2)
    by (simp add: discardBackup_cancel)
  moreover have "backup_times r (discardBackup r' x) = backup_times r x"
    by (simp add: discardBackup_cancel backup_times_def)
  ultimately show ?thesis
    using assms(1) tracker_inv_discardBackup [OF inv, of r'] by (simp add: awaits_def)
qed

lemma awaits_step: "awaits r d b x \<Longrightarrow> spares r U e x \<Longrightarrow> awaits r d b (step U e x)"
proof (cases e)
  case (TimerFires h)
  assume "awaits r d b x"
  then show ?thesis using TimerFires by (simp add: awaits_timerFires)
next
  case (ChangeContent c)
  assume "awaits r d b x" "spares r U e x"
  then show ?thesis using ChangeContent
    by (auto simp: deliver_def onDidChangeWorkingCopyContent_def awaits_createOrGet_resolve
        awaits_backupModel awaits_discardBackup split: option.splits if_splits)
next
  case (Resolved r' m)
  assume "awaits r d b x" "spares r U e x"
  then show ?thesis using Resolved
    by (simp add: resolved_def awaits_backupModel)
next
  case (UntitledCreate r')
  assume "awaits r d b x"
  then show ?thesis using UntitledCreate
    by (simp add: deliver_def onDidCreateUntitled_def awaits_createOrGet_resolve)
qed (auto simp: deliver_def awaits_discardBackup onAutoSaveConfigurationChange_def
      Disposable_dispose_def rejected_def)

lemma awaits_run: "awaits r d b x \<Longrightarrow> run_spares r U es x \<Longrightarrow> awaits r d b (run U es x)"
  by (induction es arbitrary: x) (simp_all add: awaits_step)

subsection \<open>Evaluating the examples\<close>

lemmas handler_defs =
  deliver_def onDidChangeWorkingCopyContent_def onDidCreateUntitled_def
  onAutoSaveConfigurationChange_def discardBackup_def backupModel_def timerFires_def
  timerCallback_def resolved_def rejected_def createOrGet_resolve_def Disposable_dispose_def
  call_def setTimeout_def clearTimeout_def typeof_number_def
  DISABLE_BACKUP_AUTO_SAVE_THRESHOLD_def BACKUP_FROM_CONTENT_CHANGE_DELAY_def Schemas_untitled_def

lemmas example_defs =
  fileA_def fileB_def modelA_def modelB_def copyA_def copyB_def openA_def init_def
  registerListeners_def fileA2_def modelA2_def cleanCopyA2_def twoModelsA_def same_resource_def

lemma run_openA:
  "run 4 openA init =
     init\<lparr>models_get := (models_get init)(fileA := Some modelA),
          model_isDirty := (model_isDirty init)(modelA := True),
          calls := [(0, Trace ''[backup tracker] starting to backup'' fileA)],
          nextHandle := 1,
          timers := [\<lparr>t_handle = 0, t_deadline = 1000, t_model = modelA\<rparr>],
          pendingBackups := [(fileA, ClearTimeout 0)]\<rparr>"
  by (simp add: handler_defs example_defs)

subsection \<open>One pending backup for a resource\<close>

text \<open>
  Claim C1, as stated, says that the map has at most one entry for every resource. The map
  compares its keys by the identity of the \<open>URI\<close> objects. In \<open>twoModelsA\<close> a backup is
  pending for the first file under the \<open>URI\<close> object of its model; then the text file
  service has a second model of the file, whose resource is another \<open>URI\<close> object of the
  same file, and the content changes again. \<open>backupModel\<close> looks for an entry under the
  second object, finds none and cancels nothing: the map has two entries of the one file and
  two timers are live.
\<close>

theorem two_entries_of_one_resource_counterexample:
  "same_resource fileA fileA2 \<and>
   pendingBackups (run 4 twoModelsA init) =
     [(fileA, ClearTimeout 0), (fileA2, ClearTimeout 1)] \<and>
   timers (run 4 twoModelsA init) =
     [\<lparr>t_handle = 0, t_deadline = 1000, t_model = modelA\<rparr>,
      \<lparr>t_handle = 1, t_deadline = 1000, t_model = modelA2\<rparr>] \<and>
   length (filter (\<lambda>e. same_resource (fst e) fileA) (pendingBackups (run 4 twoModelsA init))) = 2"
  by (simp add: handler_defs example_defs)

text \<open>
  Claim C1, amended. In every state the tracker can reach (the state after the constructor,
  and the state after every handler, every timer that fires and every promise that is
  resolved), and for every \<open>URI\<close> object, the map of pending backups has at most one entry
  under that object as its key, and at most one live timer belongs to a model with that
  object as its resource. \<open>backupModel\<close> first cancels and removes the entry under the
  \<open>URI\<close> object of the model: after it the only entry and the only timer of that key
  are the new ones when the model is dirty, and there are none when it is not.
\<close>

theorem one_pending_backup_per_resource:
  "length (filter (\<lambda>e. fst e = r) (pendingBackups (run U es init))) \<le> 1 \<and>
   length (filter (\<lambda>t. m_resource (t_model t) = r) (timers (run U es init))) \<le> 1 \<and>
   filter (\<lambda>e. fst e = m_resource m) (pendingBackups (backupModel m (run U es init))) =
     (if model_isDirty (run U es init) m
      then [(m_resource m, ClearTimeout (nextHandle (run U es init)))] else []) \<and>
   filter (\<lambda>t. m_resource (t_model t) = m_resource m) (timers (backupModel m (run U es init))) =
     (if model_isDirty (run U es init) m
      then [\<lparr>t_handle = nextHandle (run U es init),
             t_deadline = now (run U es init) + BACKUP_FROM_CONTENT_CHANGE_DELAY, t_model = m\<rparr>]
      else [])"
proof -
  have inv: "tracker_inv (run U es init)"
    using tracker_inv_init by (rule tracker_inv_run)
  have 1: "length (filter (\<lambda>e. fst e = r) (pendingBackups (run U es init))) \<le> 1"
    using inv by (intro one_entry_per_key inv_distinct_keys)
  have 2: "length (filter (\<lambda>t. m_resource (t_model t) = r) (timers (run U es init))) \<le> 1"
    using inv by (rule one_timer_per_resource)
  have 3: "filter (\<lambda>e. fst e = m_resource m) (pendingBackups (backupModel m (run U es init))) =
     (if model_isDirty (run U es init) m
      then [(m_resource m, ClearTimeout (nextHandle (run U es init)))] else [])"
    by (simp add: backupModel_cancel entries_after_schedule entries_after_cancel)
  have 4: "filter (\<lambda>t. m_resource (t_model t) = m_resource m) (timers (backupModel m (run U es init))) =
     (if model_isDirty (run U es init) m
      then [\<lparr>t_handle = nextHandle (run U es init),
             t_deadline = now (run U es init) + BACKUP_FROM_CONTENT_CHANGE_DELAY, t_model = m\<rparr>]
      else [])"
    using cancel_timers_same[OF inv, of "m_resource m"] by (simp add: backupModel_cancel)
  from 1 2 3 4 show ?thesis by blast
qed

theorem one_pending_backup_per_resource_witness:
  "pendingBackups (run 4 (openA @ [Tick 500]) init) = [(fileA, ClearTimeout 0)] \<and>
   model_isDirty (run 4 (openA @ [Tick 500]) init) modelA \<and>
   pendingBackups (backupModel modelA (run 4 (openA @ [Tick 500]) init)) = [(fileA, ClearTimeout 1)] \<and>
   timers (backupModel modelA (run 4 (openA @ [Tick 500]) init)) =
     [\<lparr>t_handle = 1, t_deadline = 1500, t_model = modelA\<rparr>] \<and>
   length (filter (\<lambda>e. fst e = fileA) (pendingBackups (run 4 (openA @ [Tick 500]) init))) \<le> 1"
proof -
  have a: "pendingBackups (run 4 (openA @ [Tick 500]) init) = [(fileA, ClearTimeout 0)]"
    and b: "model_isDirty (run 4 (openA @ [Tick 500]) init) modelA"
    and c: "pendingBackups (backupModel modelA (run 4 (openA @ [Tick 500]) init)) = [(fileA, ClearTimeout 1)]"
    and d: "timers (backupModel modelA (run 4 (openA @ [Tick 500]) init)) =
     [\<lparr>t_handle = 1, t_deadline = 1500, t_model = modelA\<rparr>]"
    by (simp_all add: handler_defs example_defs)
  from a b c d
    one_pending_backup_per_resource [of fileA 4 "openA @ [Tick 500]" modelA]
  show ?thesis by blast
qed

subsection \<open>Disposing the tracker\<close>

text \<open>
  Claim C2, as stated, says that no timer is live once the tracker is disposed. With a backup
  pending for the first file, the timer and the entry are still there after \<open>Teardown\<close>,
  and when the timer fires at time 1000 the model is backed up.
\<close>

theorem teardown_leaves_timers_counterexample:
  "timers (step 4 Teardown (run 4 openA init)) =
     [\<lparr>t_handle = 0, t_deadline = 1000, t_model = modelA\<rparr>] \<and>
   pendingBackups (step 4 Teardown (run 4 openA init)) = [(fileA, ClearTimeout 0)] \<and>
   backup_times fileA (run 4 [Tick 1000, TimerFires 0] (step 4 Teardown (run 4 openA init))) = [1000]"
  by (simp add: handler_defs example_defs backup_times_def)

text \<open>
  Claim C2, amended. Disposing the tracker releases its seven listeners and nothing else:
  the map of pending backups and the live timers are as before, a timer fires as it would
  have fired without the disposal, and no event of a collaborator reaches a handler any
  more.
\<close>

theorem teardown_releases_listeners_only:
  "store (step U Teardown s) = [] \<and>
   pendingBackups (step U Teardown s) = pendingBackups s \<and>
   timers (step U Teardown s) = timers s \<and>
   step U (TimerFires h) (step U Teardown s) = step U Teardown (step U (TimerFires h) s) \<and>
   step U (ChangeContent c) (step U Teardown s) = step U Teardown s \<and>
   step U (ModelSaved r) (step U Teardown s) = step U Teardown s \<and>
   step U (ModelReverted r) (step U Teardown s) = step U Teardown s \<and>
   step U (ModelDisposed r) (step U Teardown s) = step U Teardown s \<and>
   step U (UntitledCreate r) (step U Teardown s) = step U Teardown s \<and>
   step U (UntitledDisposeModel r) (step U Teardown s) = step U Teardown s \<and>
   step U (AutoSaveConfigurationChange a) (step U Teardown s) = step U Teardown s"
  by (simp add: Disposable_dispose_def deliver_def timerFires_def timerCallback_def
      clearTimeout_def call_def Let_def split: option.splits)

theorem teardown_releases_listeners_only_witness:
  "store (step 4 Teardown (run 4 openA init)) = [] \<and>
   timers (step 4 Teardown (run 4 openA init)) = timers (run 4 openA init) \<and>
   timers (run 4 openA init) = [\<lparr>t_handle = 0, t_deadline = 1000, t_model = modelA\<rparr>] \<and>
   step 4 (ModelSaved fileA) (step 4 Teardown (run 4 openA init)) =
     step 4 Teardown (run 4 openA init)"
proof -
  have "timers (run 4 openA init) = [\<lparr>t_handle = 0, t_deadline = 1000, t_model = modelA\<rparr>]"
    by (simp add: run_openA)
  with teardown_releases_listeners_only [of 4 "run 4 openA init" 0 copyA fileA]
  show ?thesis by blast
qed

subsection \<open>Debouncing\<close>

text \<open>
  Claim C3, as stated, says for every resource that a second content change before the delay
  has elapsed cancels the timer that was scheduled and replaces it, so that the backup is
  made at most once, 1000 after the last change. For an untitled document the handler only
  starts a promise, and \<open>backupModel\<close> runs when the promise is resolved. In the example
  the document changes at time 0 and at time 500; after the second change the first timer
  is still live, it fires at time 1000, the promise of the second change is resolved then,
  and the document is backed up twice, at 1000 and at 2000.
\<close>

theorem untitled_change_keeps_timer_counterexample:
  "map_of (pendingBackups (run 4 untitledFirst init)) untitled1 = Some (ClearTimeout 0) \<and>
   now (run 4 untitledFirst init) = 500 \<and>
   timers (run 4 untitledFirst init) =
     [\<lparr>t_handle = 0, t_deadline = 1000, t_model = modelU\<rparr>] \<and>
   wc_isDirty copyU \<and>
   timers (step 4 (ChangeContent copyU) (run 4 untitledFirst init)) =
     [\<lparr>t_handle = 0, t_deadline = 1000, t_model = modelU\<rparr>] \<and>
   backup_times untitled1
     (run 4 untitledLate (step 4 (ChangeContent copyU) (run 4 untitledFirst init))) =
     [1000, 2000]"
  by (simp add: handler_defs init_def registerListeners_def untitled1_def modelU_def copyU_def
      untitledFirst_def untitledLate_def backup_times_def)

text \<open>
  Claim C3, amended. The keys are \<open>URI\<close> objects. When a model is dirty and \<open>backupModel\<close>
  runs for it while a backup is pending under the model's key (in a state the tracker can
  reach), the timer of the pending backup is cleared (it is no longer live, and firing it
  does nothing), and the key gets one new timer, due 1000 time units
  (\<open>BACKUP_FROM_CONTENT_CHANGE_DELAY\<close>) after this run. As long as the events that follow
  spare the key (events of other keys are among them), \<open>backup()\<close> is called at most once
  for the key, and not before that time. A change of the content of a dirty working copy
  for which backups are not disabled is such a run of \<open>backupModel\<close> at once when the
  scheme of its resource is not the untitled one and the text file service has the model.
  When the scheme is the untitled one, the handler leaves the timers and the map as they
  are and starts a promise; \<open>backupModel\<close> runs when the promise is resolved, and until
  then the timer that was scheduled stays live.
\<close>

theorem rescheduling_restarts_the_delay:
  assumes "s = run U es init" and "s' = backupModel m s"
    and "map_of (pendingBackups s) (m_resource m) = Some (ClearTimeout h)"
    and "model_isDirty s m"
    and "run_spares (m_resource m) U later s'"
  shows "BACKUP_FROM_CONTENT_CHANGE_DELAY = 1000 \<and>
     find (\<lambda>t. t_handle t = h) (timers s') = None \<and>
     timerFires h s' = s' \<and>
     filter (\<lambda>t. m_resource (t_model t) = m_resource m) (timers s') =
       [\<lparr>t_handle = nextHandle s, t_deadline = now s + 1000, t_model = m\<rparr>] \<and>
     map_of (pendingBackups s') (m_resource m) = Some (ClearTimeout (nextHandle s)) \<and>
     (backup_times (m_resource m) (run U later s') = backup_times (m_resource m) s \<or>
      (\<exists>t\<ge>now s + 1000.
         backup_times (m_resource m) (run U later s') = backup_times (m_resource m) s @ [t])) \<and>
     (wc_isDirty c \<and> \<not> (backupsDisabledForAutoSaveables s \<and> capabilities c AND U = 0) \<and>
      scheme (wc_resource c) \<noteq> Schemas_untitled \<and> models_get s (wc_resource c) = Some m \<longrightarrow>
        onDidChangeWorkingCopyContent U c s = s') \<and>
     (wc_isDirty c \<and> \<not> (backupsDisabledForAutoSaveables s \<and> capabilities c AND U = 0) \<and>
      scheme (wc_resource c) = Schemas_untitled \<longrightarrow>
        timers (onDidChangeWorkingCopyContent U c s) = timers s \<and>
        pendingBackups (onDidChangeWorkingCopyContent U c s) = pendingBackups s \<and>
        resolving (onDidChangeWorkingCopyContent U c s) = resolving s @ [wc_resource c] \<and>
        step U (Resolved (wc_resource c) m) (onDidChangeWorkingCopyContent U c s) =
          backupModel m
            ((onDidChangeWorkingCopyContent U c s)
               \<lparr>resolving := remove1 (wc_resource c) (resolving s @ [wc_resource c])\<rparr>))"
proof -
  have inv: "tracker_inv s"
    unfolding assms(1) using tracker_inv_init by (rule tracker_inv_run)
  have inv': "tracker_inv s'"
    unfolding assms(2) using inv by (rule tracker_inv_backupModel)
  from inv_entry_timer [OF inv assms(3)] obtain t0
    where t0: "t0 \<in> set (timers s)" "t_handle t0 = h" by blast
  with inv have fresh: "h \<noteq> nextHandle s"
    using inv_handle_bound by fastforce
  have timers': "timers s' =
      filter (\<lambda>t. t_handle t \<noteq> h) (timers s) @
      [\<lparr>t_handle = nextHandle s, t_deadline = now s + 1000, t_model = m\<rparr>]"
    using assms(3,4)
    by (simp add: assms(2) backupModel_cancel timers_cancel BACKUP_FROM_CONTENT_CHANGE_DELAY_def)
  have 1: "find (\<lambda>t. t_handle t = h) (timers s') = None"
    using fresh by (auto simp: timers' find_None_iff)
  then have 2: "timerFires h s' = s'" by (simp add: timerFires_def)
  have 3: "filter (\<lambda>t. m_resource (t_model t) = m_resource m) (timers s') =
       [\<lparr>t_handle = nextHandle s, t_deadline = now s + 1000, t_model = m\<rparr>]"
    using cancel_timers_same [OF inv, of "m_resource m"] assms(4)
    by (simp add: assms(2) backupModel_cancel BACKUP_FROM_CONTENT_CHANGE_DELAY_def)
  have 4: "map_of (pendingBackups s') (m_resource m) = Some (ClearTimeout (nextHandle s))"
    using assms(4) by (simp add: assms(2) backupModel_cancel update_conv')
  have "backup_times (m_resource m) s' = backup_times (m_resource m) s"
    using assms(4) by (simp add: assms(2) backupModel_cancel backup_times_def)
  with inv' 3 have "awaits (m_resource m) (now s + 1000) (backup_times (m_resource m) s) s'"
    by (simp add: awaits_def)
  then have "awaits (m_resource m) (now s + 1000) (backup_times (m_resource m) s) (run U later s')"
    using assms(5) by (rule awaits_run)
  then have 5: "backup_times (m_resource m) (run U later s') = backup_times (m_resource m) s \<or>
      (\<exists>t\<ge>now s + 1000.
         backup_times (m_resource m) (run U later s') = backup_times (m_resource m) s @ [t])"
    by (auto simp: awaits_def)
  have 6: "wc_isDirty c \<and> \<not> (backupsDisabledForAutoSaveables s \<and> capabilities c AND U = 0) \<and>
      scheme (wc_resource c) \<noteq> Schemas_untitled \<and> models_get s (wc_resource c) = Some m \<longrightarrow>
        onDidChangeWorkingCopyContent U c s = s'"
    by (auto simp: onDidChangeWorkingCopyContent_def assms(2))
  have 7: "wc_isDirty c \<and> \<not> (backupsDisabledForAutoSaveables s \<and> capabilities c AND U = 0) \<and>
      scheme (wc_resource c) = Schemas_untitled \<longrightarrow>
        timers (onDidChangeWorkingCopyContent U c s) = timers s \<and>
        pendingBackups (onDidChangeWorkingCopyContent U c s) = pendingBackups s \<and>
        resolving (onDidChangeWorkingCopyContent U c s) = resolving s @ [wc_resource c] \<and>
        step U (Resolved (wc_resource c) m) (onDidChangeWorkingCopyContent U c s) =
          backupModel m
            ((onDidChangeWorkingCopyContent U c s)
               \<lparr>resolving := remove1 (wc_resource c) (resolving s @ [wc_resource c])\<rparr>)"
    by (auto simp: onDidChangeWorkingCopyContent_def createOrGet_resolve_def call_def
        resolved_def)
  from 1 2 3 4 5 6 7 show ?thesis by (simp add: BACKUP_FROM_CONTENT_CHANGE_DELAY_def)
qed

theorem rescheduling_restarts_the_delay_witness:
  "map_of (pendingBackups (run 4 (openA @ [Tick 500]) init)) (m_resource modelA) =
     Some (ClearTimeout 0) \<and>
   model_isDirty (run 4 (openA @ [Tick 500]) init) modelA \<and>
   run_spares (m_resource modelA) 4 afterSecondChange
     (backupModel modelA (run 4 (openA @ [Tick 500]) init)) \<and>
   now (run 4 (openA @ [Tick 500]) init) = 500 \<and>
   timers (backupModel modelA (run 4 (openA @ [Tick 500]) init)) =
     [\<lparr>t_handle = 1, t_deadline = 1500, t_model = modelA\<rparr>] \<and>
   backup_times fileA (run 4 (openA @ [Tick 500]) init) = [] \<and>
   backup_times fileA
     (run 4 afterSecondChange (backupModel modelA (run 4 (openA @ [Tick 500]) init))) = [1500] \<and>
   timerFires 0 (backupModel modelA (run 4 (openA @ [Tick 500]) init)) =
     backupModel modelA (run 4 (openA @ [Tick 500]) init) \<and>
   onDidChangeWorkingCopyContent 4 copyA (run 4 (openA @ [Tick 500]) init) =
     backupModel modelA (run 4 (openA @ [Tick 500]) init)"
proof -
  have a: "map_of (pendingBackups (run 4 (openA @ [Tick 500]) init)) (m_resource modelA) =
     Some (ClearTimeout 0)"
    by (simp add: handler_defs example_defs)
  have b: "model_isDirty (run 4 (openA @ [Tick 500]) init) modelA"
    by (simp add: handler_defs example_defs)
  have c: "run_spares (m_resource modelA) 4 afterSecondChange
     (backupModel modelA (run 4 (openA @ [Tick 500]) init))"
    by (simp add: handler_defs example_defs afterSecondChange_def)
  have d: "now (run 4 (openA @ [Tick 500]) init) = 500"
    "timers (backupModel modelA (run 4 (openA @ [Tick 500]) init)) =
     [\<lparr>t_handle = 1, t_deadline = 1500, t_model = modelA\<rparr>]"
    "backup_times fileA (run 4 (openA @ [Tick 500]) init) = []"
    "backup_times fileA
     (run 4 afterSecondChange (backupModel modelA (run 4 (openA @ [Tick 500]) init))) = [1500]"
    by (simp_all add: handler_defs example_defs afterSecondChange_def backup_times_def)
  have e: "wc_isDirty copyA"
    "\<not> backupsDisabledForAutoSaveables (run 4 (openA @ [Tick 500]) init)"
    "scheme (wc_resource copyA) \<noteq> Schemas_untitled"
    "models_get (run 4 (openA @ [Tick 500]) init) (wc_resource copyA) = Some modelA"
    by (simp_all add: handler_defs example_defs)
  from a b c d e rescheduling_restarts_the_delay [where c = copyA, OF refl refl a b c]
  show ?thesis by simp
qed

subsection \<open>When the timer fires\<close>

text \<open>
  Claim C4. When the timer of a pending backup fires, its entry is removed from the map and
  the timer is gone; the model is asked again whether it is dirty, and \<open>backup()\<close> is
  called (once, after a trace message) only if it is: for a model that is no longer dirty
  no call is made at all. A timer fires only once its time has come. When the entry was
  discarded before, its timer is no longer live and firing it does nothing.
\<close>

theorem timer_backs_up_only_when_dirty:
  "(find (\<lambda>t. t_handle t = h) (timers s) = Some t \<and> t_deadline t \<le> now s \<longrightarrow>
      map_of (pendingBackups (timerFires h s)) (m_resource (t_model t)) = None \<and>
      find (\<lambda>t. t_handle t = h) (timers (timerFires h s)) = None \<and>
      calls (timerFires h s) =
        calls s @
        (if model_isDirty s (t_model t)
         then [(now s, Trace ''[backup tracker] running backup'' (m_resource (t_model t))),
               (now s, Backup (t_model t))]
         else [])) \<and>
   (find (\<lambda>t. t_handle t = h) (timers s) = Some t \<and> now s < t_deadline t \<longrightarrow>
      timerFires h s = s) \<and>
   (map_of (pendingBackups s) r = Some (ClearTimeout h) \<longrightarrow>
      timerFires h (discardBackup r s) = discardBackup r s)"
proof (intro conjI impI)
  assume a: "find (\<lambda>t. t_handle t = h) (timers s) = Some t \<and> t_deadline t \<le> now s"
  then have f: "timerFires h s = timerCallback (t_model t) (clearTimeout h s)"
    by (simp add: timerFires_def)
  show "map_of (pendingBackups (timerFires h s)) (m_resource (t_model t)) = None"
    by (simp add: f timerCallback_def call_def delete_conv' Let_def)
  show "find (\<lambda>t. t_handle t = h) (timers (timerFires h s)) = None"
    by (simp add: f timerCallback_def call_def clearTimeout_def Let_def find_None_iff)
  show "calls (timerFires h s) =
        calls s @
        (if model_isDirty s (t_model t)
         then [(now s, Trace ''[backup tracker] running backup'' (m_resource (t_model t))),
               (now s, Backup (t_model t))]
         else [])"
    by (simp add: f timerCallback_def call_def clearTimeout_def Let_def)
next
  assume "find (\<lambda>t. t_handle t = h) (timers s) = Some t \<and> now s < t_deadline t"
  then show "timerFires h s = s" by (simp add: timerFires_def)
next
  assume "map_of (pendingBackups s) r = Some (ClearTimeout h)"
  then have "find (\<lambda>t. t_handle t = h) (timers (discardBackup r s)) = None"
    by (simp add: discardBackup_cancel timers_cancel find_None_iff)
  then show "timerFires h (discardBackup r s) = discardBackup r s"
    by (simp add: timerFires_def)
qed

theorem timer_backs_up_only_when_dirty_witness:
  "find (\<lambda>t. t_handle t = 0) (timers (run 4 cleanA init)) =
     Some \<lparr>t_handle = 0, t_deadline = 1000, t_model = modelA\<rparr> \<and>
   now (run 4 cleanA init) = 1000 \<and>
   \<not> model_isDirty (run 4 cleanA init) modelA \<and>
   pendingBackups (timerFires 0 (run 4 cleanA init)) = [] \<and>
   calls (timerFires 0 (run 4 cleanA init)) = calls (run 4 cleanA init) \<and>
   map_of (pendingBackups (run 4 openA init)) fileA = Some (ClearTimeout 0) \<and>
   timerFires 0 (discardBackup fileA (run 4 openA init)) = discardBackup fileA (run 4 openA init)"
proof -
  have a: "find (\<lambda>t. t_handle t = 0) (timers (run 4 cleanA init)) =
     Some \<lparr>t_handle = 0, t_deadline = 1000, t_model = modelA\<rparr>"
    and b: "now (run 4 cleanA init) = 1000"
    and c: "\<not> model_isDirty (run 4 cleanA init) modelA"
    and d: "pendingBackups (timerFires 0 (run 4 cleanA init)) = []"
    and e: "map_of (pendingBackups (run 4 openA init)) fileA = Some (ClearTimeout 0)"
    by (simp_all add: handler_defs example_defs cleanA_def)
  from a b c d e
    timer_backs_up_only_when_dirty [of 0 "run 4 cleanA init"
      "\<lparr>t_handle = 0, t_deadline = 1000, t_model = modelA\<rparr>" fileA]
    timer_backs_up_only_when_dirty [of 0 "run 4 openA init"
      "\<lparr>t_handle = 0, t_deadline = 1000, t_model = modelA\<rparr>" fileA]
  show ?thesis by simp
qed

subsection \<open>Discarding\<close>

text \<open>
  Claim C5, as stated, says that discarding a resource cancels and removes any pending entry
  of the resource. \<open>discardBackup\<close> looks the entry up under the \<open>URI\<close> object it is
  given. In the example a backup is pending for the first file under the \<open>URI\<close> object of
  its model, and the file is reported as saved with another \<open>URI\<close> object of the same
  file: the backup file service is asked to discard, but the entry and its timer stay, and
  at time 1000 the model is backed up.
\<close>

theorem discard_by_other_object_counterexample:
  "same_resource fileA2 fileA \<and>
   pendingBackups (run 4 openA init) = [(fileA, ClearTimeout 0)] \<and>
   pendingBackups (step 4 (ModelSaved fileA2) (run 4 openA init)) = [(fileA, ClearTimeout 0)] \<and>
   timers (step 4 (ModelSaved fileA2) (run 4 openA init)) =
     [\<lparr>t_handle = 0, t_deadline = 1000, t_model = modelA\<rparr>] \<and>
   calls (step 4 (ModelSaved fileA2) (run 4 openA init)) =
     calls (run 4 openA init) @
     [(0, Trace ''[backup tracker] discarding backup'' fileA2), (0, DiscardResourceBackup fileA2)] \<and>
   backup_times fileA
     (run 4 [Tick 1000, TimerFires 0] (step 4 (ModelSaved fileA2) (run 4 openA init))) = [1000]"
  by (simp add: handler_defs example_defs backup_times_def)

text \<open>
  Claim C5, amended. Every run of \<open>discardBackup\<close> for a \<open>URI\<close> object calls
  \<open>discardResourceBackup\<close> of the backup file service with that object exactly once (after
  one trace message), whether or not an entry was pending. Afterwards the map has no entry
  under that object, and the timer of the entry that was there is cleared; the entries
  under all other keys, also those of other \<open>URI\<close> objects of the same resource, are as
  before. The listeners for saved, reverted and disposed file models and for disposed
  untitled models, while registered, run exactly \<open>discardBackup\<close>.
\<close>

theorem discard_always_reaches_the_store:
  "calls (discardBackup r s) =
     calls s @ [(now s, Trace ''[backup tracker] discarding backup'' r),
                (now s, DiscardResourceBackup r)] \<and>
   map_of (pendingBackups (discardBackup r s)) r = None \<and>
   timers (discardBackup r s) =
     (case map_of (pendingBackups s) r of
        None \<Rightarrow> timers s
      | Some (ClearTimeout h) \<Rightarrow> filter (\<lambda>t. t_handle t \<noteq> h) (timers s)) \<and>
   (OnModelSaved \<in> set (store s) \<longrightarrow> step U (ModelSaved r) s = discardBackup r s) \<and>
   (OnModelReverted \<in> set (store s) \<longrightarrow> step U (ModelReverted r) s = discardBackup r s) \<and>
   (OnModelDisposed \<in> set (store s) \<longrightarrow> step U (ModelDisposed r) s = discardBackup r s) \<and>
   (OnDidDisposeModel \<in> set (store s) \<longrightarrow>
      step U (UntitledDisposeModel r) s = discardBackup r s) \<and>
   (r' \<noteq> r \<longrightarrow>
      map_of (pendingBackups (discardBackup r s)) r' = map_of (pendingBackups s) r')"
  by (simp add: discardBackup_cancel timers_cancel delete_conv' deliver_def)

theorem discard_always_reaches_the_store_witness:
  "pendingBackups init = [] \<and>
   calls (step 4 (ModelSaved fileA) init) =
     [(0, Trace ''[backup tracker] discarding backup'' fileA), (0, DiscardResourceBackup fileA)] \<and>
   pendingBackups (run 4 openA init) = [(fileA, ClearTimeout 0)] \<and>
   pendingBackups (step 4 (ModelSaved fileA) (run 4 openA init)) = [] \<and>
   timers (step 4 (ModelSaved fileA) (run 4 openA init)) = [] \<and>
   calls (step 4 (ModelSaved fileA) (run 4 openA init)) =
     calls (run 4 openA init) @
     [(0, Trace ''[backup tracker] discarding backup'' fileA), (0, DiscardResourceBackup fileA)]"
proof -
  have a: "OnModelSaved \<in> set (store init)" "OnModelSaved \<in> set (store (run 4 openA init))"
    and b: "pendingBackups init = []" "pendingBackups (run 4 openA init) = [(fileA, ClearTimeout 0)]"
    and c: "now init = 0" "now (run 4 openA init) = 0" "calls init = []"
    and d: "pendingBackups (discardBackup fileA (run 4 openA init)) = []"
       "timers (discardBackup fileA (run 4 openA init)) = []"
    by (simp_all add: handler_defs example_defs)
  from a b c d discard_always_reaches_the_store [of fileA init 4 fileB]
    discard_always_reaches_the_store [of fileA "run 4 openA init" 4 fileB]
  show ?thesis by simp
qed

subsection \<open>The auto save configuration\<close>

text \<open>
  Claim C6. After the handler of an auto save configuration change has run, backups are
  disabled for auto-saveables exactly when \<open>autoSaveDelay\<close> is a number that is less than
  1500. For a finite delay \<open>x\<close> the flag is \<open>x < 1500\<close> (so it is false from 1500 on), and
  for a delay that is not a number (absent, or of another type) the flag is false.
\<close>

theorem autoSave_flag:
  "backupsDisabledForAutoSaveables (onAutoSaveConfigurationChange c s) =
     (\<exists>d. autoSaveDelay c = Number d \<and> number_less d (Finite 1500)) \<and>
   (\<forall>x. autoSaveDelay c = Number (Finite x) \<longrightarrow>
      backupsDisabledForAutoSaveables (onAutoSaveConfigurationChange c s) = (x < 1500)) \<and>
   ((\<forall>d. autoSaveDelay c \<noteq> Number d) \<longrightarrow>
      \<not> backupsDisabledForAutoSaveables (onAutoSaveConfigurationChange c s))"
  by (cases "autoSaveDelay c")
     (simp_all add: onAutoSaveConfigurationChange_def typeof_number_def
        DISABLE_BACKUP_AUTO_SAVE_THRESHOLD_def)

theorem autoSave_flag_witness:
  "backupsDisabledForAutoSaveables
     (onAutoSaveConfigurationChange \<lparr>autoSaveDelay = Number (Finite 500)\<rparr> init) \<and>
   \<not> backupsDisabledForAutoSaveables
     (onAutoSaveConfigurationChange \<lparr>autoSaveDelay = Number (Finite 1500)\<rparr> init) \<and>
   \<not> backupsDisabledForAutoSaveables
     (onAutoSaveConfigurationChange \<lparr>autoSaveDelay = Undefined\<rparr> init)"
  using autoSave_flag [of "\<lparr>autoSaveDelay = Number (Finite 500)\<rparr>" init]
    autoSave_flag [of "\<lparr>autoSaveDelay = Number (Finite 1500)\<rparr>" init]
    autoSave_flag [of "\<lparr>autoSaveDelay = Undefined\<rparr>" init]
  by simp

subsection \<open>Changes of content while backups are disabled\<close>

text \<open>
  Claim C7. When the content of a dirty working copy without the untitled capability changes
  while backups are disabled for auto-saveables, the handler returns the state as it was:
  nothing is scheduled, and the map of pending backups and the timers are untouched, so an
  entry that was pending for the resource stays pending.
\<close>

theorem suppressed_change_preserves_state:
  "wc_isDirty c \<Longrightarrow> backupsDisabledForAutoSaveables s \<Longrightarrow> capabilities c AND U = 0 \<Longrightarrow>
   onDidChangeWorkingCopyContent U c s = s"
  by (simp add: onDidChangeWorkingCopyContent_def)

theorem suppressed_change_preserves_state_witness:
  "wc_isDirty copyA \<and>
   backupsDisabledForAutoSaveables
     (run 4 (openA @ [AutoSaveConfigurationChange \<lparr>autoSaveDelay = Number (Finite 500)\<rparr>]) init) \<and>
   capabilities copyA AND 4 = 0 \<and>
   pendingBackups
     (run 4 (openA @ [AutoSaveConfigurationChange \<lparr>autoSaveDelay = Number (Finite 500)\<rparr>]) init) =
     [(fileA, ClearTimeout 0)] \<and>
   onDidChangeWorkingCopyContent 4 copyA
     (run 4 (openA @ [AutoSaveConfigurationChange \<lparr>autoSaveDelay = Number (Finite 500)\<rparr>]) init) =
     run 4 (openA @ [AutoSaveConfigurationChange \<lparr>autoSaveDelay = Number (Finite 500)\<rparr>]) init"
proof -
  let ?s = "run 4 (openA @ [AutoSaveConfigurationChange \<lparr>autoSaveDelay = Number (Finite 500)\<rparr>]) init"
  have 1: "wc_isDirty copyA" by (simp add: copyA_def)
  have 2: "backupsDisabledForAutoSaveables ?s"
    by (simp add: handler_defs example_defs)
  have 3: "capabilities copyA AND 4 = 0" by (simp add: copyA_def)
  have 4: "pendingBackups ?s = [(fileA, ClearTimeout 0)]"
    by (simp add: handler_defs example_defs)
  from 1 2 3 4 suppressed_change_preserves_state [OF 1 2 3] show ?thesis by simp
qed

subsection \<open>Working copies with the untitled capability\<close>

text \<open>
  Claim C8, as stated, says that a content change of every dirty working copy with the
  untitled capability schedules a backup, also while backups are disabled for
  auto-saveables. The handler chooses the model by the scheme of the resource, not by the
  capability: for \<open>orphanCopy\<close>, whose scheme is not the untitled one and for which the text
  file service has no model, it returns the state unchanged. No timer is started, no entry
  is made and no model is being resolved.
\<close>

theorem untitled_capability_without_model_counterexample:
  "wc_isDirty orphanCopy \<and>
   capabilities orphanCopy AND 4 \<noteq> 0 \<and>
   backupsDisabledForAutoSaveables suppressed \<and>
   onDidChangeWorkingCopyContent 4 orphanCopy suppressed = suppressed \<and>
   pendingBackups (onDidChangeWorkingCopyContent 4 orphanCopy suppressed) = [] \<and>
   timers (onDidChangeWorkingCopyContent 4 orphanCopy suppressed) = [] \<and>
   resolving (onDidChangeWorkingCopyContent 4 orphanCopy suppressed) = [] \<and>
   calls (onDidChangeWorkingCopyContent 4 orphanCopy suppressed) = []"
  by (simp add: handler_defs example_defs suppressed_def orphanCopy_def)

text \<open>
  Claim C8, amended. For a dirty working copy with the untitled capability the handler does
  not look at the flag: it does what it does when backups are not disabled. If the scheme of
  the resource is the untitled one, it asks the untitled service to resolve the model, and
  \<open>backupModel\<close> runs on the model when the promise is resolved. Otherwise \<open>backupModel\<close>
  runs on the model the text file service has for the resource, and nothing happens when
  it has none. \<open>backupModel\<close> on a dirty model makes the entry of the model's resource
  and starts its timer.
\<close>

theorem untitled_capability_exempt:
  assumes "wc_isDirty c" and "capabilities c AND U \<noteq> 0"
  shows "onDidChangeWorkingCopyContent U c s =
       (if scheme (wc_resource c) = Schemas_untitled
        then createOrGet_resolve (wc_resource c) s
        else (case models_get s (wc_resource c) of
                Some m \<Rightarrow> backupModel m s
              | None \<Rightarrow> s)) \<and>
     (scheme (wc_resource c) = Schemas_untitled \<longrightarrow>
        resolving (onDidChangeWorkingCopyContent U c s) = resolving s @ [wc_resource c] \<and>
        step U (Resolved (wc_resource c) m) (onDidChangeWorkingCopyContent U c s) =
          backupModel m
            ((onDidChangeWorkingCopyContent U c s)
               \<lparr>resolving := remove1 (wc_resource c) (resolving s @ [wc_resource c])\<rparr>)) \<and>
     (model_isDirty s' m \<longrightarrow>
        map_of (pendingBackups (backupModel m s')) (m_resource m) =
          Some (ClearTimeout (nextHandle s')) \<and>
        \<lparr>t_handle = nextHandle s',
          t_deadline = now s' + BACKUP_FROM_CONTENT_CHANGE_DELAY, t_model = m\<rparr>
          \<in> set (timers (backupModel m s')))"
  using assms
  by (simp add: onDidChangeWorkingCopyContent_def createOrGet_resolve_def call_def resolved_def
      backupModel_cancel update_conv')

theorem untitled_capability_exempt_witness:
  "wc_isDirty copyU \<and> capabilities copyU AND 4 \<noteq> 0 \<and>
   backupsDisabledForAutoSaveables suppressedU \<and>
   resolving (onDidChangeWorkingCopyContent 4 copyU suppressedU) = [untitled1] \<and>
   model_isDirty (onDidChangeWorkingCopyContent 4 copyU suppressedU) modelU \<and>
   pendingBackups (step 4 (Resolved untitled1 modelU) (onDidChangeWorkingCopyContent 4 copyU suppressedU))
     = [(untitled1, ClearTimeout 0)] \<and>
   timers (step 4 (Resolved untitled1 modelU) (onDidChangeWorkingCopyContent 4 copyU suppressedU))
     = [\<lparr>t_handle = 0, t_deadline = 1000, t_model = modelU\<rparr>]"
proof -
  have a: "wc_isDirty copyU" and b: "capabilities copyU AND 4 \<noteq> 0"
    by (simp_all add: copyU_def)
  have c: "backupsDisabledForAutoSaveables suppressedU"
    "resolving suppressedU = []"
    "scheme (wc_resource copyU) = Schemas_untitled"
    "wc_resource copyU = untitled1"
    "model_isDirty (onDidChangeWorkingCopyContent 4 copyU suppressedU) modelU"
    "pendingBackups (step 4 (Resolved untitled1 modelU) (onDidChangeWorkingCopyContent 4 copyU suppressedU))
     = [(untitled1, ClearTimeout 0)]"
    "timers (step 4 (Resolved untitled1 modelU) (onDidChangeWorkingCopyContent 4 copyU suppressedU))
     = [\<lparr>t_handle = 0, t_deadline = 1000, t_model = modelU\<rparr>]"
    by (simp_all add: handler_defs example_defs suppressedU_def copyU_def untitled1_def modelU_def)
  from a b c untitled_capability_exempt [OF a b, of suppressedU modelU suppressedU]
  show ?thesis by auto
qed

subsection \<open>Changes of content that leave the copy clean\<close>

text \<open>
  Claim C9, as stated, says that the handler, for a working copy that is not dirty, cancels
  and removes any pending entry of the copy's resource. The entry is looked up under the
  \<open>URI\<close> object of the copy. In the example a backup is pending for the first file under
  the \<open>URI\<close> object of its model, and the clean copy has another \<open>URI\<close> object of the
  same file: the entry and its timer stay.
\<close>

theorem clean_change_by_other_object_counterexample:
  "\<not> wc_isDirty cleanCopyA2 \<and>
   same_resource (wc_resource cleanCopyA2) fileA \<and>
   pendingBackups (run 4 openA init) = [(fileA, ClearTimeout 0)] \<and>
   pendingBackups (onDidChangeWorkingCopyContent 4 cleanCopyA2 (run 4 openA init)) =
     [(fileA, ClearTimeout 0)] \<and>
   timers (onDidChangeWorkingCopyContent 4 cleanCopyA2 (run 4 openA init)) =
     [\<lparr>t_handle = 0, t_deadline = 1000, t_model = modelA\<rparr>]"
  by (simp add: handler_defs example_defs)

text \<open>
  Claim C9, amended. For a working copy that is not dirty, the content change handler is
  \<open>discardBackup\<close> for the \<open>URI\<close> object of the copy and nothing more: the backup file
  service is asked to discard, the map has no entry under that object afterwards, the timer
  of the entry that was there is cleared and all other timers stay, no timer is started (no
  handle is handed out) and no model is resolved.
\<close>

theorem clean_change_discards:
  "\<not> wc_isDirty c \<Longrightarrow>
   onDidChangeWorkingCopyContent U c s = discardBackup (wc_resource c) s \<and>
   calls (onDidChangeWorkingCopyContent U c s) =
     calls s @ [(now s, Trace ''[backup tracker] discarding backup'' (wc_resource c)),
                (now s, DiscardResourceBackup (wc_resource c))] \<and>
   map_of (pendingBackups (onDidChangeWorkingCopyContent U c s)) (wc_resource c) = None \<and>
   timers (onDidChangeWorkingCopyContent U c s) =
     (case map_of (pendingBackups s) (wc_resource c) of
        None \<Rightarrow> timers s
      | Some (ClearTimeout h) \<Rightarrow> filter (\<lambda>t. t_handle t \<noteq> h) (timers s)) \<and>
   pendingBackups (onDidChangeWorkingCopyContent U c s) =
     AList.delete (wc_resource c) (pendingBackups s) \<and>
   set (timers (onDidChangeWorkingCopyContent U c s)) \<subseteq> set (timers s) \<and>
   nextHandle (onDidChangeWorkingCopyContent U c s) = nextHandle s \<and>
   resolving (onDidChangeWorkingCopyContent U c s) = resolving s"
  using timers_cancel_subset [of "wc_resource c" s]
  by (simp add: onDidChangeWorkingCopyContent_def discardBackup_cancel delete_conv'
      timers_cancel)

theorem clean_change_discards_witness:
  "\<not> wc_isDirty (copyA\<lparr>wc_isDirty := False\<rparr>) \<and>
   pendingBackups (run 4 openA init) = [(fileA, ClearTimeout 0)] \<and>
   onDidChangeWorkingCopyContent 4 (copyA\<lparr>wc_isDirty := False\<rparr>) (run 4 openA init) =
     discardBackup fileA (run 4 openA init) \<and>
   pendingBackups (onDidChangeWorkingCopyContent 4 (copyA\<lparr>wc_isDirty := False\<rparr>) (run 4 openA init)) = [] \<and>
   timers (onDidChangeWorkingCopyContent 4 (copyA\<lparr>wc_isDirty := False\<rparr>) (run 4 openA init)) = [] \<and>
   resolving (onDidChangeWorkingCopyContent 4 (copyA\<lparr>wc_isDirty := False\<rparr>) (run 4 openA init)) = []"
proof -
  have a: "\<not> wc_isDirty (copyA\<lparr>wc_isDirty := False\<rparr>)" by simp
  have b: "pendingBackups (run 4 openA init) = [(fileA, ClearTimeout 0)]"
    "wc_resource (copyA\<lparr>wc_isDirty := False\<rparr>) = fileA"
    "pendingBackups (discardBackup fileA (run 4 openA init)) = []"
    "timers (discardBackup fileA (run 4 openA init)) = []"
    "resolving (discardBackup fileA (run 4 openA init)) = []"
    by (simp_all add: handler_defs example_defs)
  from b clean_change_discards [OF a, of 4 "run 4 openA init"] show ?thesis by simp
qed

subsection \<open>Other resources\<close>

text \<open>
  Claim C10. In every state the tracker can reach, \<open>backupModel\<close> for a model of a
  resource and \<open>discardBackup\<close> for a resource leave every other resource alone: its
  entry in the map (present or not, and for which timer), the timers of its models (with
  their handles and times) and the flag that disables backups for auto-saveables are as
  before.
\<close>

theorem other_resources_untouched:
  "r' \<noteq> m_resource m \<Longrightarrow> r' \<noteq> r \<Longrightarrow>
   map_of (pendingBackups (backupModel m (run U es init))) r' =
     map_of (pendingBackups (run U es init)) r' \<and>
   filter (\<lambda>t. m_resource (t_model t) = r') (timers (backupModel m (run U es init))) =
     filter (\<lambda>t. m_resource (t_model t) = r') (timers (run U es init)) \<and>
   backupsDisabledForAutoSaveables (backupModel m (run U es init)) =
     backupsDisabledForAutoSaveables (run U es init) \<and>
   map_of (pendingBackups (discardBackup r (run U es init))) r' =
     map_of (pendingBackups (run U es init)) r' \<and>
   filter (\<lambda>t. m_resource (t_model t) = r') (timers (discardBackup r (run U es init))) =
     filter (\<lambda>t. m_resource (t_model t) = r') (timers (run U es init)) \<and>
   backupsDisabledForAutoSaveables (discardBackup r (run U es init)) =
     backupsDisabledForAutoSaveables (run U es init)"
proof -
  assume ne: "r' \<noteq> m_resource m" "r' \<noteq> r"
  have inv: "tracker_inv (run U es init)"
    using tracker_inv_init by (rule tracker_inv_run)
  show ?thesis
    using ne cancel_timers_other [OF inv ne(1)] cancel_timers_other [OF inv ne(2)]
    by (simp add: backupModel_cancel discardBackup_cancel update_conv' delete_conv')
qed

theorem other_resources_untouched_witness:
  "fileB \<noteq> m_resource modelA \<and> fileB \<noteq> fileA \<and>
   timers (run 4 openAB init) =
     [\<lparr>t_handle = 0, t_deadline = 1000, t_model = modelA\<rparr>,
      \<lparr>t_handle = 1, t_deadline = 1300, t_model = modelB\<rparr>] \<and>
   timers (backupModel modelA (run 4 openAB init)) =
     [\<lparr>t_handle = 1, t_deadline = 1300, t_model = modelB\<rparr>,
      \<lparr>t_handle = 2, t_deadline = 1600, t_model = modelA\<rparr>] \<and>
   map_of (pendingBackups (backupModel modelA (run 4 openAB init))) fileB = Some (ClearTimeout 1) \<and>
   map_of (pendingBackups (discardBackup fileA (run 4 openAB init))) fileB = Some (ClearTimeout 1) \<and>
   timers (discardBackup fileA (run 4 openAB init)) =
     [\<lparr>t_handle = 1, t_deadline = 1300, t_model = modelB\<rparr>]"
proof -
  have a: "fileB \<noteq> m_resource modelA" "fileB \<noteq> fileA"
    by (simp_all add: example_defs)
  have b: "timers (run 4 openAB init) =
     [\<lparr>t_handle = 0, t_deadline = 1000, t_model = modelA\<rparr>,
      \<lparr>t_handle = 1, t_deadline = 1300, t_model = modelB\<rparr>]"
    "timers (backupModel modelA (run 4 openAB init)) =
     [\<lparr>t_handle = 1, t_deadline = 1300, t_model = modelB\<rparr>,
      \<lparr>t_handle = 2, t_deadline = 1600, t_model = modelA\<rparr>]"
    "timers (discardBackup fileA (run 4 openAB init)) =
     [\<lparr>t_handle = 1, t_deadline = 1300, t_model = modelB\<rparr>]"
    "map_of (pendingBackups (run 4 openAB init)) fileB = Some (ClearTimeout 1)"
    by (simp_all add: handler_defs example_defs openAB_def)
  from a b other_resources_untouched [OF a, of 4 openAB] show ?thesis by simp
qed

end
